theory Spec2Isabelle
  imports Complex_Main "HOL-Library.Multiset" "HOL-Library.Log_Nat"
begin

section \<open>Python values\<close>

text \<open>
  The validator of \<^verbatim>\<open>llm_defender/core/validators/validator.py\<close> works on untyped
  Python data: a miner's output is a dict, its \<^verbatim>\<open>"engines"\<close> entry a list of dicts.
  The values that can occur are modelled by one datatype. A dict is an association list
  in which the first binding of a key is the one that counts. Python's floats (and the
  float32 entries of the score tensor) are idealised as real numbers: rounding, infinities
  and NaN are outside the model, and Python's ints are embedded in the same type.
\<close>

datatype pyval =
    PNone
  | PBool bool
  | PNum real
  | PStr string
  | PList "pyval list"
  | PDict "(string \<times> pyval) list"

datatype error =
    KeyError string
  | TypeError
  | IndexError
  | ZeroDivisionError

text \<open>Truth value of an object, as \<^verbatim>\<open>not response.output\<close> tests it.\<close>

fun truthy :: "pyval \<Rightarrow> bool" where
  "truthy PNone = False"
| "truthy (PBool b) = b"
| "truthy (PNum r) = (r \<noteq> 0)"
| "truthy (PStr s) = (s \<noteq> [])"
| "truthy (PList xs) = (xs \<noteq> [])"
| "truthy (PDict d) = (d \<noteq> [])"

text \<open>The keys of a dict, each once.\<close>

definition dict_keys :: "(string \<times> pyval) list \<Rightarrow> string list" where
  "dict_keys d = remdups (map fst d)"

text \<open>\<^verbatim>\<open>obj[key]\<close> for a string key: only a dict accepts it, and a missing key raises.\<close>

fun getitem :: "pyval \<Rightarrow> string \<Rightarrow> error + pyval" where
  "getitem (PDict d) k = (case map_of d k of None \<Rightarrow> Inl (KeyError k) | Some v \<Rightarrow> Inr v)"
| "getitem _ k = Inl TypeError"

text \<open>\<^verbatim>\<open>for x in obj\<close>: a list yields its elements, a dict its keys, a string its characters.\<close>

fun py_iter :: "pyval \<Rightarrow> error + pyval list" where
  "py_iter (PList xs) = Inr xs"
| "py_iter (PDict d) = Inr (map PStr (dict_keys d))"
| "py_iter (PStr s) = Inr (map (\<lambda>c. PStr [c]) s)"
| "py_iter _ = Inl TypeError"

text \<open>\<^verbatim>\<open>len(obj)\<close>: for a dict, the number of its keys.\<close>

fun py_len :: "pyval \<Rightarrow> error + nat" where
  "py_len (PDict d) = Inr (length (dict_keys d))"
| "py_len (PList xs) = Inr (length xs)"
| "py_len (PStr s) = Inr (length s)"
| "py_len _ = Inl TypeError"

text \<open>An operand of float arithmetic: a number, or a bool (Python's bool is an int).\<close>

fun num_of :: "pyval \<Rightarrow> error + real" where
  "num_of (PNum r) = Inr r"
| "num_of (PBool b) = Inr (if b then 1 else 0)"
| "num_of _ = Inl TypeError"

text \<open>A list comprehension whose element expression may raise: the first exception wins.\<close>

fun map_err :: "('a \<Rightarrow> error + 'b) \<Rightarrow> 'a list \<Rightarrow> error + 'b list" where
  "map_err f [] = Inr []"
| "map_err f (x # xs) =
     (case f x of
        Inl e \<Rightarrow> Inl e
      | Inr y \<Rightarrow> (case map_err f xs of Inl e \<Rightarrow> Inl e | Inr ys \<Rightarrow> Inr (y # ys)))"

section \<open>The validator's configuration\<close>

text \<open>
  \<^verbatim>\<open>self.max_engines\<close> and \<^verbatim>\<open>self.timeout\<close> are set in \<^verbatim>\<open>__init__\<close> (to 3 and 12),
  \<^verbatim>\<open>self.neuron_config.alpha\<close> comes from the command line (default 0.9). They are
  parameters here, so that the scoring is verified for every configuration.
\<close>

record config =
  max_engines :: int
  timeout :: real
  alpha :: real

definition default_config :: config where
  "default_config = \<lparr>max_engines = 3, timeout = 12, alpha = 0.9\<rparr>"

section \<open>calculate-score\<close>

text \<open>
  The error-level log lines of \<^verbatim>\<open>calculate_score\<close> are returned with the score, so that
  the branch that produced a 0.0 is visible. Debug and info lines, and the \<^verbatim>\<open>hotkey\<close>
  argument that only they print, are left out.
\<close>

datatype log_event =
    OutOfBoundsIndividual real real real
  | OutOfBoundsScore real

text \<open>
  Lines 204-210: the inner comprehension reads every engine's \<^verbatim>\<open>"confidence"\<close>, the outer
  one takes the distances to the target; their mean is subtracted from 1, and no
  distances at all give 1.0.
\<close>

definition distance_score :: "pyval \<Rightarrow> real \<Rightarrow> error + real" where
  "distance_score response target =
     (case getitem response ''engines'' of
        Inl e \<Rightarrow> Inl e
      | Inr engines \<Rightarrow>
     (case py_iter engines of
        Inl e \<Rightarrow> Inl e
      | Inr es \<Rightarrow>
     (case map_err (\<lambda>engine. getitem engine ''confidence'') es of
        Inl e \<Rightarrow> Inl e
      | Inr confidences \<Rightarrow>
     (case map_err (\<lambda>confidence.
              case num_of confidence of
                Inl e \<Rightarrow> Inl e
              | Inr c \<Rightarrow> Inr \<bar>target - c\<bar>) confidences of
        Inl e \<Rightarrow> Inl e
      | Inr distances \<Rightarrow>
          Inr (if length distances > 0
               then 1 - sum_list distances / real (length distances)
               else 1.0)))))"

text \<open>
  Lines 216-222: the response time is cut at the timeout, then scaled by it. Over the
  reals every negative response time gives a term above 1; what the rounding of
  line 222 does to a negative time close to zero is the subject of \<open>speed_score_f64\<close>
  below.
\<close>

definition speed_score :: "config \<Rightarrow> real \<Rightarrow> error + real" where
  "speed_score cfg response_time =
     (let response_time = (if response_time > timeout cfg then timeout cfg else response_time)
      in if timeout cfg = 0 then Inl ZeroDivisionError
         else Inr (1.0 - response_time / timeout cfg))"

text \<open>Line 225: \<^verbatim>\<open>len(response) / self.max_engines\<close>, with \<^verbatim>\<open>response\<close> the output dict.\<close>

definition engine_score :: "config \<Rightarrow> pyval \<Rightarrow> error + real" where
  "engine_score cfg response =
     (case py_len response of
        Inl e \<Rightarrow> Inl e
      | Inr n \<Rightarrow>
          if max_engines cfg = 0 then Inl ZeroDivisionError
          else Inr (real n / real_of_int (max_engines cfg)))"

definition calculate_score ::
  "config \<Rightarrow> pyval \<Rightarrow> real \<Rightarrow> real \<Rightarrow> error + (log_event list \<times> real)" where
  "calculate_score cfg response target response_time =
     (case distance_score response target of
        Inl e \<Rightarrow> Inl e
      | Inr d_score \<Rightarrow>
     (case speed_score cfg response_time of
        Inl e \<Rightarrow> Inl e
      | Inr s_score \<Rightarrow>
     (case engine_score cfg response of
        Inl e \<Rightarrow> Inl e
      | Inr e_score \<Rightarrow>
          if \<not> (0.0 \<le> d_score \<and> d_score \<le> 1.0)
             \<or> \<not> (0.0 \<le> s_score \<and> s_score \<le> 1.0)
             \<or> \<not> (0.0 \<le> e_score \<and> e_score \<le> 1.0)
          then Inr ([OutOfBoundsIndividual d_score s_score e_score], 0.0)
          else
            let score = 0.7 * d_score + 0.2 * s_score + 0.1 * e_score
            in if score > 1.0 \<or> score < 0.0
               then Inr ([OutOfBoundsScore score], 0.0)
               else Inr ([], score))))"

section \<open>process-responses\<close>

text \<open>
  What \<^verbatim>\<open>process_responses\<close> reads of a response object: \<^verbatim>\<open>response.output\<close>
  (the field \<open>synapse_output\<close>) and \<^verbatim>\<open>response.dendrite.process_time\<close>.
\<close>

record synapse =
  synapse_output :: pyval
  process_time :: real

text \<open>
  \<^verbatim>\<open>self.scores\<close> is a one-dimensional tensor, here the list of its entries. A tensor
  accepts a negative index, counted from the end, and raises IndexError out of range.
\<close>

definition tensor_index :: "nat \<Rightarrow> int \<Rightarrow> error + nat" where
  "tensor_index n uid =
     (if 0 \<le> uid \<and> uid < int n then Inr (nat uid)
      else if - int n \<le> uid \<and> uid < 0 then Inr (nat (int n + uid))
      else Inl IndexError)"

text \<open>Lines 151-154: the target is 1.0 only when the flag is the object \<^verbatim>\<open>True\<close>.\<close>

definition target_of :: "pyval \<Rightarrow> error + real" where
  "target_of query =
     (case getitem query ''data'' of
        Inl e \<Rightarrow> Inl e
      | Inr data \<Rightarrow>
     (case getitem data ''isPromptInjection'' of
        Inl e \<Rightarrow> Inl e
      | Inr flag \<Rightarrow> Inr (if flag = PBool True then 1.0 else 0.0)))"

text \<open>
  The body of the loop of lines 158-191 for the response at position \<open>i\<close>. The debug line
  at its top reads \<^verbatim>\<open>processed_uids[i]\<close> first; an exception leaves the scores as they
  were.
\<close>

definition process_response ::
  "config \<Rightarrow> real \<Rightarrow> int list \<Rightarrow> nat \<Rightarrow> synapse \<Rightarrow> real list \<Rightarrow> error + real list" where
  "process_response cfg target processed_uids i response scores =
     (if \<not> i < length processed_uids then Inl IndexError
      else
        let uid = processed_uids ! i in
        if \<not> truthy (synapse_output response) then
          (case tensor_index (length scores) uid of
             Inl e \<Rightarrow> Inl e
           | Inr k \<Rightarrow>
               Inr (scores[k := alpha cfg * scores ! k + (1 - alpha cfg) * 0.0]))
        else
          (case calculate_score cfg (synapse_output response) target (process_time response) of
             Inl e \<Rightarrow> Inl e
           | Inr (events, response_score) \<Rightarrow>
          (case tensor_index (length scores) uid of
             Inl e \<Rightarrow> Inl e
           | Inr k \<Rightarrow>
               Inr (scores[k := alpha cfg * scores ! k
                                 + (1 - alpha cfg) * response_score]))))"

text \<open>
  The loop over \<^verbatim>\<open>enumerate(responses)\<close>. It returns the scores as the loop left them and
  the exception that ended it, if one did: the tensor is updated in place, so the updates
  made before an exception stay.
\<close>

fun process_loop ::
  "config \<Rightarrow> real \<Rightarrow> int list \<Rightarrow> nat \<Rightarrow> synapse list \<Rightarrow> real list
     \<Rightarrow> real list \<times> error option" where
  "process_loop cfg target processed_uids i [] scores = (scores, None)"
| "process_loop cfg target processed_uids i (response # responses) scores =
     (case process_response cfg target processed_uids i response scores of
        Inl e \<Rightarrow> (scores, Some e)
      | Inr scores' \<Rightarrow> process_loop cfg target processed_uids (Suc i) responses scores')"

definition process_responses ::
  "config \<Rightarrow> real list \<Rightarrow> int list \<Rightarrow> pyval \<Rightarrow> synapse list \<Rightarrow> real list \<times> error option" where
  "process_responses cfg scores processed_uids query responses =
     (case target_of query of
        Inl e \<Rightarrow> (scores, Some e)
      | Inr target \<Rightarrow> process_loop cfg target processed_uids 0 responses scores)"

text \<open>Line 136 of \<^verbatim>\<open>initialize_neuron\<close>: one zero for every entry of the roster.\<close>

definition initial_scores :: "nat \<Rightarrow> real list" where
  "initial_scores n = replicate n 0"

text \<open>
  A sequence of rounds, each with its uids, query and responses. The main loop logs an
  exception of a round and goes on to the next one with the scores as they are.
\<close>

fun run_rounds ::
  "config \<Rightarrow> (int list \<times> pyval \<times> synapse list) list \<Rightarrow> real list \<Rightarrow> real list" where
  "run_rounds cfg [] scores = scores"
| "run_rounds cfg ((processed_uids, query, responses) # rounds) scores =
     run_rounds cfg rounds (fst (process_responses cfg scores processed_uids query responses))"

section \<open>calculate-score in binary64 arithmetic\<close>

text \<open>
  Where a claim turns on one unit in the last place, the idealisation of floats as reals
  is not the program. This section embeds \<^verbatim>\<open>calculate_score\<close> a second time, with every
  arithmetic operation of lines 204-252 rounded as IEEE 754 binary64 rounds it: to the
  nearest number with a 53-bit significand, ties to the even significand. Numbers stay
  reals (the doubles are the fixed points of \<open>round_double\<close>); the exponent range is not
  bounded, so overflow to infinity and subnormal numbers are outside the model. The
  comparisons are exact, as they are on doubles.
\<close>

definition round_half_even :: "real \<Rightarrow> int" where
  "round_half_even z =
     (let f = \<lfloor>z\<rfloor>; r = z - real_of_int f
      in if r < 1 / 2 then f
         else if 1 / 2 < r then f + 1
         else if even f then f else f + 1)"

text \<open>
  The exponent of a number that is not zero: the \<open>e\<close> with \<open>2^e \<le> |x| < 2^(e+1)\<close>, computed
  from the bit length of the integer part of \<open>|x|\<close>, or of \<open>1 / |x|\<close> when \<open>|x| < 1\<close>.
\<close>

definition binary_exponent :: "real \<Rightarrow> int" where
  "binary_exponent x =
     (if 1 \<le> \<bar>x\<bar> then bitlen \<lfloor>\<bar>x\<bar>\<rfloor> - 1 else - bitlen (\<lceil>1 / \<bar>x\<bar>\<rceil> - 1))"

text \<open>Rounding to binary64: to a multiple of the unit in the last place, \<open>2^(e - 52)\<close>.\<close>

definition round_double :: "real \<Rightarrow> real" where
  "round_double x =
     (if x = 0 then 0
      else let ulp = 2 powi (binary_exponent x - 52)
           in real_of_int (round_half_even (x / ulp)) * ulp)"

text \<open>
  Lines 204-210. \<^verbatim>\<open>sum\<close> adds the distances from left to right, starting from 0, and each
  sum is rounded.
\<close>

definition distance_score_f64 :: "pyval \<Rightarrow> real \<Rightarrow> error + real" where
  "distance_score_f64 response target =
     (case getitem response ''engines'' of
        Inl e \<Rightarrow> Inl e
      | Inr engines \<Rightarrow>
     (case py_iter engines of
        Inl e \<Rightarrow> Inl e
      | Inr es \<Rightarrow>
     (case map_err (\<lambda>engine. getitem engine ''confidence'') es of
        Inl e \<Rightarrow> Inl e
      | Inr confidences \<Rightarrow>
     (case map_err (\<lambda>confidence.
              case num_of confidence of
                Inl e \<Rightarrow> Inl e
              | Inr c \<Rightarrow> Inr \<bar>round_double (target - c)\<bar>) confidences of
        Inl e \<Rightarrow> Inl e
      | Inr distances \<Rightarrow>
          Inr (if length distances > 0
               then round_double
                      (1 - round_double
                             (foldl (\<lambda>a d. round_double (a + d)) 0 distances
                                / real (length distances)))
               else 1.0)))))"

text \<open>Lines 216-222: the quotient is rounded, then the difference.\<close>

definition speed_score_f64 :: "config \<Rightarrow> real \<Rightarrow> error + real" where
  "speed_score_f64 cfg response_time =
     (let response_time = (if response_time > timeout cfg then timeout cfg else response_time)
      in if timeout cfg = 0 then Inl ZeroDivisionError
         else Inr (round_double (1.0 - round_double (response_time / timeout cfg))))"

text \<open>Line 225.\<close>

definition engine_score_f64 :: "config \<Rightarrow> pyval \<Rightarrow> error + real" where
  "engine_score_f64 cfg response =
     (case py_len response of
        Inl e \<Rightarrow> Inl e
      | Inr n \<Rightarrow>
          if max_engines cfg = 0 then Inl ZeroDivisionError
          else Inr (round_double (real n / real_of_int (max_engines cfg))))"

text \<open>
  Lines 228-261. The weights 0.7, 0.2 and 0.1 are the doubles nearest to them; the three
  products are rounded and added from left to right.
\<close>

definition calculate_score_f64 ::
  "config \<Rightarrow> pyval \<Rightarrow> real \<Rightarrow> real \<Rightarrow> error + (log_event list \<times> real)" where
  "calculate_score_f64 cfg response target response_time =
     (case distance_score_f64 response target of
        Inl e \<Rightarrow> Inl e
      | Inr d_score \<Rightarrow>
     (case speed_score_f64 cfg response_time of
        Inl e \<Rightarrow> Inl e
      | Inr s_score \<Rightarrow>
     (case engine_score_f64 cfg response of
        Inl e \<Rightarrow> Inl e
      | Inr e_score \<Rightarrow>
          if \<not> (0.0 \<le> d_score \<and> d_score \<le> 1.0)
             \<or> \<not> (0.0 \<le> s_score \<and> s_score \<le> 1.0)
             \<or> \<not> (0.0 \<le> e_score \<and> e_score \<le> 1.0)
          then Inr ([OutOfBoundsIndividual d_score s_score e_score], 0.0)
          else
            let score =
              round_double
                (round_double
                   (round_double (round_double 0.7 * d_score)
                      + round_double (round_double 0.2 * s_score))
                   + round_double (round_double 0.1 * e_score))
            in if score > 1.0 \<or> score < 0.0
               then Inr ([OutOfBoundsScore score], 0.0)
               else Inr ([], score))))"

section \<open>Notions of the specification\<close>

text \<open>
  A well-typed response: a dict whose \<^verbatim>\<open>"engines"\<close> entry is a list of dicts, each with a
  number under \<^verbatim>\<open>"confidence"\<close>. Such a dict has a key, so it is not empty.
\<close>

fun well_typed_engine :: "pyval \<Rightarrow> bool" where
  "well_typed_engine (PDict e) =
     (case map_of e ''confidence'' of Some (PNum c) \<Rightarrow> True | _ \<Rightarrow> False)"
| "well_typed_engine _ = False"

fun well_typed_response :: "pyval \<Rightarrow> bool" where
  "well_typed_response (PDict d) =
     (case map_of d ''engines'' of
        Some (PList es) \<Rightarrow> list_all well_typed_engine es
      | _ \<Rightarrow> False)"
| "well_typed_response _ = False"

text \<open>
  The engine-count term as the specification words it: the number of engines in the
  response's engines collection, divided by \<open>max_engines\<close>. It is compared below with
  \<open>engine_score\<close>, which is line 225 of the source.
\<close>

definition engines_used :: "pyval \<Rightarrow> error + nat" where
  "engines_used response =
     (case getitem response ''engines'' of Inl e \<Rightarrow> Inl e | Inr engines \<Rightarrow> py_len engines)"

definition spec_engine_score :: "config \<Rightarrow> pyval \<Rightarrow> error + real" where
  "spec_engine_score cfg response =
     (case engines_used response of
        Inl e \<Rightarrow> Inl e
      | Inr k \<Rightarrow>
          if max_engines cfg = 0 then Inl ZeroDivisionError
          else Inr (real k / real_of_int (max_engines cfg)))"

text \<open>
  The score of a round for one response, as the specification words it: 0.0 for an empty
  response, without a call of the calculator, and the calculator's result otherwise.
\<close>

definition round_score :: "config \<Rightarrow> real \<Rightarrow> synapse \<Rightarrow> error + real" where
  "round_score cfg target response =
     (if \<not> truthy (synapse_output response) then Inr 0.0
      else (case calculate_score cfg (synapse_output response) target (process_time response) of
              Inl e \<Rightarrow> Inl e
            | Inr (events, score) \<Rightarrow> Inr score))"

text \<open>The exponential moving average of the old score and the round's score.\<close>

definition ema :: "real \<Rightarrow> real \<Rightarrow> real \<Rightarrow> real" where
  "ema a old_score x = a * old_score + (1 - a) * x"

text \<open>The invariant of the score state: every entry lies in [0, 1].\<close>

definition unit_scores :: "real list \<Rightarrow> bool" where
  "unit_scores scores = list_all (\<lambda>x. 0 \<le> x \<and> x \<le> 1) scores"

text \<open>
  The updates of a round as a list of pairs of a uid and its response, applied from left
  to right and stopped by the first exception. This is the loop of
  \<^verbatim>\<open>process_responses\<close> when every response has its uid (lemma
  \<open>process_loop_update_all\<close> below); a reordering of a round is a permutation of this list.
\<close>

fun update_all ::
  "config \<Rightarrow> real \<Rightarrow> (int \<times> synapse) list \<Rightarrow> real list \<Rightarrow> real list \<times> error option" where
  "update_all cfg target [] scores = (scores, None)"
| "update_all cfg target ((uid, response) # rest) scores =
     (case round_score cfg target response of
        Inl e \<Rightarrow> (scores, Some e)
      | Inr x \<Rightarrow>
          (case tensor_index (length scores) uid of
             Inl e \<Rightarrow> (scores, Some e)
           | Inr k \<Rightarrow> update_all cfg target rest (scores[k := ema (alpha cfg) (scores ! k) x])))"

subsection \<open>Example inputs\<close>

text \<open>The response of the specification's scenario: one engine with confidence 0.9.\<close>

definition scenario_output :: pyval where
  "scenario_output = PDict [(''engines'', PList [PDict [(''confidence'', PNum 0.9)]])]"

text \<open>
  An output with one engine and two further entries, and one with a fourth entry: more
  entries than the three of \<open>max_engines\<close>.
\<close>

definition miner_output :: pyval where
  "miner_output =
     PDict [(''confidence'', PNum 0.9), (''prompt'', PStr ''hello''),
            (''engines'', PList [PDict [(''confidence'', PNum 0.9)]])]"

definition four_key_output :: pyval where
  "four_key_output =
     PDict [(''confidence'', PNum 0.9), (''prompt'', PStr ''hello''),
            (''engines'', PList [PDict [(''confidence'', PNum 0.9)]]),
            (''version'', PNum 1)]"

definition no_engines_output :: pyval where
  "no_engines_output = PDict [(''engines'', PList [])]"

text \<open>The output of one engine that is sure of an injection: every number is a double.\<close>

definition sure_output :: pyval where
  "sure_output = PDict [(''engines'', PList [PDict [(''confidence'', PNum 1)]])]"

text \<open>An empty response, and the response of the scenario arriving after 2 time units.\<close>

definition empty_synapse :: synapse where
  "empty_synapse = \<lparr>synapse_output = PNone, process_time = 0\<rparr>"

definition scenario_synapse :: synapse where
  "scenario_synapse = \<lparr>synapse_output = scenario_output, process_time = 2\<rparr>"

text \<open>A query whose prompt is an injection: the target is 1.0.\<close>

definition injection_query :: pyval where
  "injection_query = PDict [(''data'', PDict [(''isPromptInjection'', PBool True)])]"

text \<open>
  Two rounds on a roster of two. In the second one the uid 5 is outside the roster: the
  loop stops there with an IndexError, after the update of uid 1.
\<close>

definition two_rounds :: "(int list \<times> pyval \<times> synapse list) list" where
  "two_rounds =
     [([0, 1], injection_query,
         [scenario_synapse, empty_synapse]),
      ([1, 5], injection_query,
         [scenario_synapse, scenario_synapse])]"

section \<open>The score calculator returns\<close>

text \<open>
  On a well-typed response every subscript and every arithmetic operation of
  \<^verbatim>\<open>calculate_score\<close> succeeds, so its three terms are computed.
\<close>

lemma map_err_confidence:
  "list_all well_typed_engine es \<Longrightarrow>
   \<exists>cs. map_err (\<lambda>engine. getitem engine ''confidence'') es = Inr cs
        \<and> (\<forall>c \<in> set cs. \<exists>r. c = PNum r)"
proof (induction es)
  case Nil
  then show ?case by simp
next
  case (Cons e es)
  then obtain cs where cs: "map_err (\<lambda>engine. getitem engine ''confidence'') es = Inr cs"
      "\<forall>c \<in> set cs. \<exists>r. c = PNum r" by auto
  from Cons.prems have "well_typed_engine e" by simp
  then obtain r where "getitem e ''confidence'' = Inr (PNum r)"
    by (cases e) (auto split: option.splits pyval.splits)
  with cs show ?case by simp
qed

lemma map_err_distance:
  "\<forall>c \<in> set cs. \<exists>r. c = PNum r \<Longrightarrow>
   \<exists>ds. map_err (\<lambda>confidence. case num_of confidence of Inl e \<Rightarrow> Inl e
                                | Inr c \<Rightarrow> Inr \<bar>target - c\<bar>) cs = Inr ds"
proof (induction cs)
  case Nil
  then show ?case by simp
next
  case (Cons c cs)
  then obtain ds where "map_err (\<lambda>confidence. case num_of confidence of Inl e \<Rightarrow> Inl e
                                | Inr c \<Rightarrow> Inr \<bar>target - c\<bar>) cs = Inr ds" by auto
  moreover from Cons.prems obtain r where "c = PNum r" by auto
  ultimately show ?case by simp
qed

lemma distance_score_returns:
  assumes "well_typed_response response"
  shows "\<exists>d. distance_score response target = Inr d"
proof -
  from assms obtain d es where r: "response = PDict d" "map_of d ''engines'' = Some (PList es)"
      "list_all well_typed_engine es"
    by (cases response) (auto split: option.splits pyval.splits)
  from map_err_confidence [OF r(3)] obtain cs where
    cs: "map_err (\<lambda>engine. getitem engine ''confidence'') es = Inr cs"
        "\<forall>c \<in> set cs. \<exists>r. c = PNum r" by blast
  from map_err_distance [OF cs(2), of target] obtain ds where
    "map_err (\<lambda>confidence. case num_of confidence of Inl e \<Rightarrow> Inl e
                                | Inr c \<Rightarrow> Inr \<bar>target - c\<bar>) cs = Inr ds" by blast
  with r cs show ?thesis by (simp add: distance_score_def)
qed

lemma engine_score_returns:
  assumes "well_typed_response response" "max_engines cfg \<noteq> 0"
  shows "\<exists>g. engine_score cfg response = Inr g"
  using assms by (cases response) (auto simp: engine_score_def)

lemma speed_score_returns:
  "timeout cfg \<noteq> 0 \<Longrightarrow> \<exists>s. speed_score cfg rt = Inr s"
  by (simp add: speed_score_def Let_def)

lemma calculate_score_range:
  assumes "calculate_score cfg response target response_time = Inr (events, score)"
  shows "0 \<le> score \<and> score \<le> 1"
  using assms
  by (auto simp: calculate_score_def Let_def split: sum.splits if_splits)

lemma calculate_score_events:
  assumes "calculate_score cfg response target response_time = Inr (events, score)"
  shows "OutOfBoundsScore x \<notin> set events"
  using assms
  by (auto simp: calculate_score_def Let_def split: sum.splits if_splits)

section \<open>The engine-count term\<close>

text \<open>
  Claim C1 says that the engine-count term is the number of engines of the response
  divided by \<open>max_engines\<close>, whatever other entries the response carries. Line 225 takes
  \<^verbatim>\<open>len(response)\<close>, the number of entries of the output dict, under the comment
  "Calculate score for the number of engines used". On an output with one engine and
  two further entries the specification's term is 1/3 and the source's is 1.
\<close>

theorem engine_score_counts_keys:
  "engines_used miner_output = Inr 1
   \<and> spec_engine_score default_config miner_output = Inr (1 / 3)
   \<and> engine_score default_config miner_output = Inr 1"
  by (simp add: engines_used_def spec_engine_score_def engine_score_def default_config_def
      miner_output_def dict_keys_def)

section \<open>The range of the score\<close>

text \<open>
  Claim C2: for a well-typed response, a positive timeout and \<open>max_engines\<close> at least 1,
  \<^verbatim>\<open>calculate_score\<close> returns (it raises nothing), its value lies in [0, 1], and the
  branch of the final bounds check is not taken: no \<open>OutOfBoundsScore\<close> is logged. This
  holds for every target and every response time, in particular for the targets 0 and 1
  and the non-negative times of the claim.
\<close>

theorem calculate_score_in_unit_interval:
  assumes "well_typed_response response" and "0 < timeout cfg" and "1 \<le> max_engines cfg"
  shows "\<exists>events score.
           calculate_score cfg response target response_time = Inr (events, score)
           \<and> 0 \<le> score \<and> score \<le> 1 \<and> (\<forall>x. OutOfBoundsScore x \<notin> set events)"
proof -
  obtain d where d: "distance_score response target = Inr d"
    using distance_score_returns [OF assms(1)] by blast
  obtain s where s: "speed_score cfg response_time = Inr s"
    using speed_score_returns [of cfg response_time] assms(2) by auto
  obtain g where g: "engine_score cfg response = Inr g"
    using engine_score_returns [OF assms(1), of cfg] assms(3) by auto
  have "\<exists>events score. calculate_score cfg response target response_time = Inr (events, score)"
    using d s g by (simp add: calculate_score_def Let_def)
  then obtain events score where
    c: "calculate_score cfg response target response_time = Inr (events, score)" by blast
  with calculate_score_range [OF c] calculate_score_events [OF c] show ?thesis by blast
qed

text \<open>The scenario of the specification: the score is 0.83, with nothing logged.\<close>

theorem calculate_score_in_unit_interval_witness:
  "well_typed_response scenario_output \<and> 0 < timeout default_config
   \<and> 1 \<le> max_engines default_config
   \<and> calculate_score default_config scenario_output 1 2 = Inr ([], 0.83)
   \<and> (\<exists>events score.
           calculate_score default_config scenario_output 1 2 = Inr (events, score)
           \<and> 0 \<le> score \<and> score \<le> 1 \<and> (\<forall>x. OutOfBoundsScore x \<notin> set events))"
proof -
  have w: "well_typed_response scenario_output"
    by (simp add: scenario_output_def)
  have t: "0 < timeout default_config" and m: "1 \<le> max_engines default_config"
    by (simp_all add: default_config_def)
  have v: "calculate_score default_config scenario_output 1 2 = Inr ([], 0.83)"
    by (simp add: calculate_score_def distance_score_def speed_score_def engine_score_def
        default_config_def scenario_output_def dict_keys_def)
  from w t m v calculate_score_in_unit_interval [OF w t m, of 1 2] show ?thesis by blast
qed

section \<open>The bounds check on the three terms\<close>

text \<open>
  Claim C3: when one of the three terms that \<^verbatim>\<open>calculate_score\<close> computed lies outside
  [0, 1], the function returns 0.0 (and logs the three terms); it raises nothing.
\<close>

theorem individual_out_of_bounds_gives_zero:
  assumes "distance_score response target = Inr d"
      and "speed_score cfg response_time = Inr s"
      and "engine_score cfg response = Inr g"
      and "\<not> (0 \<le> d \<and> d \<le> 1) \<or> \<not> (0 \<le> s \<and> s \<le> 1) \<or> \<not> (0 \<le> g \<and> g \<le> 1)"
  shows "calculate_score cfg response target response_time
           = Inr ([OutOfBoundsIndividual d s g], 0)"
  using assms by (auto simp: calculate_score_def)

text \<open>
  An output with four entries has an engine-count term of 4/3 under the default
  configuration, and scores 0.
\<close>

theorem individual_out_of_bounds_gives_zero_witness:
  "distance_score four_key_output 1 = Inr 0.9
   \<and> speed_score default_config 2 = Inr (5 / 6)
   \<and> engine_score default_config four_key_output = Inr (4 / 3)
   \<and> \<not> (4 / 3 \<le> (1::real))
   \<and> calculate_score default_config four_key_output 1 2
        = Inr ([OutOfBoundsIndividual 0.9 (5 / 6) (4 / 3)], 0)"
proof -
  have d: "distance_score four_key_output 1 = Inr 0.9"
    by (simp add: distance_score_def four_key_output_def)
  have s: "speed_score default_config 2 = Inr (5 / 6)"
    by (simp add: speed_score_def default_config_def)
  have g: "engine_score default_config four_key_output = Inr (4 / 3)"
    by (simp add: engine_score_def default_config_def four_key_output_def dict_keys_def)
  have b: "\<not> (0 \<le> (0.9::real) \<and> (0.9::real) \<le> 1) \<or> \<not> (0 \<le> (5 / 6 :: real) \<and> (5 / 6 :: real) \<le> 1)
           \<or> \<not> (0 \<le> (4 / 3 :: real) \<and> (4 / 3 :: real) \<le> 1)"
    by simp
  from individual_out_of_bounds_gives_zero [OF d s g b] d s g show ?thesis by simp
qed

section \<open>The speed term\<close>

text \<open>
  Claim C4: for a response time that is not negative and a positive timeout, the speed
  term is \<open>1 - min response_time timeout / timeout\<close>; it is 1 at response time 0 and 0
  at every response time from the timeout on.
\<close>

theorem speed_score_clamped:
  assumes "0 \<le> response_time" and "0 < timeout cfg"
  shows "speed_score cfg response_time
           = Inr (1 - min response_time (timeout cfg) / timeout cfg)
         \<and> (response_time = 0 \<longrightarrow> speed_score cfg response_time = Inr 1)
         \<and> (timeout cfg \<le> response_time \<longrightarrow> speed_score cfg response_time = Inr 0)"
  using assms by (auto simp: speed_score_def min_def)

text \<open>With the timeout 12: response time 20 gives 0, response time 0 gives 1.\<close>

theorem speed_score_clamped_witness:
  "(0::real) \<le> 20 \<and> 0 < timeout default_config \<and> timeout default_config \<le> 20
   \<and> speed_score default_config 20 = Inr 0
   \<and> speed_score default_config 0 = Inr 1
   \<and> speed_score default_config 2 = Inr (1 - min 2 12 / 12)"
proof -
  have t: "0 < timeout default_config" by (simp add: default_config_def)
  have "speed_score default_config 20 = Inr 0"
    using speed_score_clamped [OF _ t, of 20] by (simp add: default_config_def)
  moreover have "speed_score default_config 0 = Inr 1"
    using speed_score_clamped [OF order_refl t] by blast
  moreover have "speed_score default_config 2 = Inr (1 - min 2 12 / 12)"
    using speed_score_clamped [OF _ t, of 2] by (simp add: default_config_def)
  ultimately show ?thesis using t by (simp add: default_config_def)
qed

section \<open>A response without engines\<close>

text \<open>
  Claim C7: for a response whose engines list is empty (the response itself is then not
  empty) the distance term is 1, and when the speed term and the engine-count term are
  in [0, 1] the score is \<open>0.7 + 0.2 * speed + 0.1 * engine\<close>.
\<close>

theorem no_engines_distance_is_one:
  assumes "getitem response ''engines'' = Inr (PList [])"
      and "speed_score cfg response_time = Inr s"
      and "engine_score cfg response = Inr g"
      and "0 \<le> s" and "s \<le> 1" and "0 \<le> g" and "g \<le> 1"
  shows "truthy response \<and> distance_score response target = Inr 1
         \<and> calculate_score cfg response target response_time
             = Inr ([], 0.7 + 0.2 * s + 0.1 * g)"
proof -
  have t: "truthy response"
    using assms(1) by (cases response) (auto split: option.splits)
  have d: "distance_score response target = Inr 1"
    using assms(1) by (simp add: distance_score_def)
  have "0.7 + 0.2 * s + 0.1 * g \<le> 1" and "0 \<le> 0.7 + 0.2 * s + 0.1 * g"
    using assms(4-7) by simp_all
  then have "calculate_score cfg response target response_time
             = Inr ([], 0.7 + 0.2 * s + 0.1 * g)"
    using d assms(2-7) by (simp add: calculate_score_def Let_def)
  with t d show ?thesis by simp
qed

theorem no_engines_distance_is_one_witness:
  "getitem no_engines_output ''engines'' = Inr (PList [])
   \<and> speed_score default_config 3 = Inr (3 / 4)
   \<and> engine_score default_config no_engines_output = Inr (1 / 3)
   \<and> distance_score no_engines_output 0 = Inr 1
   \<and> calculate_score default_config no_engines_output 0 3
        = Inr ([], 0.7 + 0.2 * (3 / 4) + 0.1 * (1 / 3))"
proof -
  have e: "getitem no_engines_output ''engines'' = Inr (PList [])"
    by (simp add: no_engines_output_def)
  have s: "speed_score default_config 3 = Inr (3 / 4)"
    by (simp add: speed_score_def default_config_def)
  have g: "engine_score default_config no_engines_output = Inr (1 / 3)"
    by (simp add: engine_score_def default_config_def no_engines_output_def dict_keys_def)
  from no_engines_distance_is_one [OF e s g, of 0] e s g show ?thesis by simp
qed

section \<open>A negative response time\<close>

text \<open>The rounding is bracketed by the powers of two around its argument.\<close>

lemma binary_exponent_bounds:
  assumes "x \<noteq> 0"
  shows "2 powi (binary_exponent x) \<le> \<bar>x\<bar> \<and> \<bar>x\<bar> < 2 powi (binary_exponent x + 1)"
proof (cases "1 \<le> \<bar>x\<bar>")
  case True
  define n where "n = \<lfloor>\<bar>x\<bar>\<rfloor>"
  have n1: "1 \<le> n" using True by (simp add: n_def)
  then have n0: "0 < n" by simp
  have b1: "1 \<le> bitlen n" using n0 by (simp add: bitlen_alt_def)
  from bitlen_bounds [OF n0] have lo: "2 ^ nat (bitlen n - 1) \<le> n" and hi: "n < 2 ^ nat (bitlen n)"
    by auto
  have e: "binary_exponent x = bitlen n - 1" using True by (simp add: binary_exponent_def n_def)
  have "(2::real) ^ nat (bitlen n - 1) \<le> real_of_int n"
    using lo by simp
  moreover have "real_of_int n \<le> \<bar>x\<bar>" by (simp add: n_def)
  ultimately have "(2::real) ^ nat (bitlen n - 1) \<le> \<bar>x\<bar>" by linarith
  then have A: "2 powi (bitlen n - 1) \<le> \<bar>x\<bar>"
    using b1 by (simp add: power_int_nonneg_exp)
  from hi have "n + 1 \<le> 2 ^ nat (bitlen n)" by simp
  then have "real_of_int (n + 1) \<le> (2::real) ^ nat (bitlen n)"
    by (subst of_int_le_numeral_power_cancel_iff)
  then have "real_of_int n + 1 \<le> (2::real) ^ nat (bitlen n)" by simp
  moreover have "\<bar>x\<bar> < real_of_int n + 1" unfolding n_def by linarith
  ultimately have "\<bar>x\<bar> < (2::real) ^ nat (bitlen n)" by linarith
  then have B: "\<bar>x\<bar> < 2 powi (bitlen n)"
    using b1 by (simp add: power_int_nonneg_exp)
  from A B e show ?thesis by simp
next
  case False
  define y where "y = 1 / \<bar>x\<bar>"
  define m where "m = \<lceil>y\<rceil> - 1"
  have xpos: "0 < \<bar>x\<bar>" using assms by simp
  have y1: "1 < y" using False xpos by (simp add: y_def)
  have m1: "1 \<le> m" using y1 unfolding m_def by linarith
  then have m0: "0 < m" by simp
  have b1: "1 \<le> bitlen m" using m0 by (simp add: bitlen_alt_def)
  from bitlen_bounds [OF m0] have lo: "2 ^ nat (bitlen m - 1) \<le> m" and hi: "m < 2 ^ nat (bitlen m)"
    by auto
  have e: "binary_exponent x = - bitlen m"
    using False by (simp add: binary_exponent_def m_def y_def)
  have my: "real_of_int m < y" and ym: "y \<le> real_of_int m + 1"
    unfolding m_def by linarith+
  from hi have "m + 1 \<le> 2 ^ nat (bitlen m)" by simp
  then have "real_of_int (m + 1) \<le> (2::real) ^ nat (bitlen m)"
    by (subst of_int_le_numeral_power_cancel_iff)
  then have "real_of_int m + 1 \<le> (2::real) ^ nat (bitlen m)" by simp
  with ym have yhi: "y \<le> 2 ^ nat (bitlen m)" by linarith
  have "(2::real) ^ nat (bitlen m - 1) \<le> real_of_int m"
    using lo by simp
  with my have ylo: "2 ^ nat (bitlen m - 1) < y" by linarith
  have x_eq: "\<bar>x\<bar> = 1 / y" using xpos by (simp add: y_def)
  have A: "2 powi (- bitlen m) \<le> \<bar>x\<bar>"
  proof -
    have "1 / 2 ^ nat (bitlen m) \<le> 1 / y"
      using yhi y1 by (intro divide_left_mono) auto
    moreover have "(2::real) powi (- bitlen m) = 1 / 2 ^ nat (bitlen m)"
      using b1 by (simp add: power_int_minus_divide power_int_nonneg_exp)
    ultimately show ?thesis by (simp add: x_eq)
  qed
  have B: "\<bar>x\<bar> < 2 powi (- bitlen m + 1)"
  proof -
    have "1 / y < 1 / 2 ^ nat (bitlen m - 1)"
      using ylo y1 by (intro divide_strict_left_mono mult_pos_pos) auto
    moreover have "- bitlen m + 1 = - (bitlen m - 1)" by simp
    then have "(2::real) powi (- bitlen m + 1) = 1 / 2 ^ nat (bitlen m - 1)"
      using b1 by (simp only: power_int_minus_divide) (simp add: power_int_nonneg_exp)
    ultimately show ?thesis by (simp add: x_eq)
  qed
  from A B e show ?thesis by simp
qed

lemma round_half_even_ge: "real_of_int n \<le> z \<Longrightarrow> n \<le> round_half_even z"
  unfolding round_half_even_def Let_def
  by (auto simp: le_floor_iff) (linarith)+

lemma round_half_even_le: "z \<le> real_of_int n \<Longrightarrow> round_half_even z \<le> n"
  unfolding round_half_even_def Let_def
  by (auto) (linarith)+

lemma round_double_pos_lower:
  assumes "0 < x"
  shows "2 powi (binary_exponent x) \<le> round_double x"
proof -
  define e where "e = binary_exponent x"
  define u :: real where "u = 2 powi (e - 52)"
  have u0: "0 < u" by (simp add: u_def)
  from binary_exponent_bounds [of x] assms have lo: "2 powi e \<le> x" by (simp add: e_def)
  have pe: "(2::real) powi e = 2 ^ 52 * u"
    by (simp add: u_def power_int_diff)
  have "2 ^ 52 \<le> x / u" using lo u0 by (simp add: pe pos_le_divide_eq)
  then have "real_of_int (2 ^ 52) \<le> x / u" by simp
  from round_half_even_ge [OF this] have "real_of_int (2 ^ 52) \<le> real_of_int (round_half_even (x / u))"
    by linarith
  then have "2 ^ 52 * u \<le> real_of_int (round_half_even (x / u)) * u"
    using u0 by (simp add: mult_right_mono)
  with assms show ?thesis
    by (simp add: round_double_def Let_def pe flip: e_def u_def)
qed

lemma round_double_neg_upper:
  assumes "x < 0"
  shows "round_double x \<le> - (2 powi (binary_exponent x))"
proof -
  define e where "e = binary_exponent x"
  define u :: real where "u = 2 powi (e - 52)"
  have u0: "0 < u" by (simp add: u_def)
  from binary_exponent_bounds [of x] assms have lo: "2 powi e \<le> - x" by (simp add: e_def)
  have pe: "(2::real) powi e = 2 ^ 52 * u"
    by (simp add: u_def power_int_diff)
  have "x \<le> - (2 ^ 52) * u" using lo pe by linarith
  then have "x / u \<le> - (2 ^ 52)" using u0 by (simp add: pos_divide_le_eq)
  then have "x / u \<le> real_of_int (- (2 ^ 52))" by simp
  from round_half_even_le [OF this] have "real_of_int (round_half_even (x / u)) \<le> real_of_int (- (2 ^ 52))"
    by linarith
  then have "real_of_int (round_half_even (x / u)) \<le> - (2 ^ 52)" by simp
  from mult_right_mono [OF this, of u] u0
  have "real_of_int (round_half_even (x / u)) * u \<le> - (2 ^ 52) * u" by simp
  with assms show ?thesis
    by (simp add: round_double_def Let_def pe flip: e_def u_def)
qed

lemma exponent_ge:
  assumes "x \<noteq> 0" and "2 powi k \<le> \<bar>x\<bar>"
  shows "k \<le> binary_exponent x"
proof (rule ccontr)
  assume "\<not> k \<le> binary_exponent x"
  then have "binary_exponent x + 1 \<le> k" by simp
  then have "(2::real) powi (binary_exponent x + 1) \<le> 2 powi k"
    by (intro power_int_increasing) auto
  with binary_exponent_bounds [OF assms(1)] assms(2) show False by linarith
qed

lemma round_double_le_neg:
  assumes "x \<le> - (1 / 2 ^ 52)"
  shows "round_double x \<le> - (1 / 2 ^ 52)"
proof -
  have "0 < (1::real) / 2 ^ 52" by simp
  with assms have neg: "x < 0" by linarith
  have "(2::real) powi (- 52) = 1 / 2 ^ 52" by (simp add: power_int_minus_divide)
  then have "2 powi (- 52) \<le> \<bar>x\<bar>" using assms neg by simp
  from exponent_ge [OF _ this] neg have "- 52 \<le> binary_exponent x" by simp
  then have "(2::real) powi (- 52) \<le> 2 powi (binary_exponent x)"
    by (intro power_int_increasing) auto
  with round_double_neg_upper [OF neg] \<open>(2::real) powi (- 52) = 1 / 2 ^ 52\<close>
  show ?thesis by linarith
qed

lemma round_double_gt_one:
  assumes "1 + 1 / 2 ^ 52 \<le> y"
  shows "1 < round_double y"
proof -
  have "0 < (1::real) / 2 ^ 52" by simp
  with assms have y1: "1 < y" by linarith
  then have pos: "0 < y" by simp
  have "(2::real) powi 0 \<le> \<bar>y\<bar>" using y1 by simp
  from exponent_ge [OF _ this] pos have e0: "0 \<le> binary_exponent y" by simp
  show ?thesis
  proof (cases "binary_exponent y = 0")
    case True
    define u :: real where "u = 2 powi (- 52)"
    have u: "u = 1 / 2 ^ 52" by (simp add: u_def power_int_minus_divide)
    have u0: "0 < u" by (simp add: u_def)
    have "(1 + 1 / 2 ^ 52) / u \<le> y / u"
      by (rule divide_right_mono [OF assms]) (use u0 in simp)
    moreover have "(1 + 1 / 2 ^ 52) / u = real_of_int (2 ^ 52 + 1)" by (simp add: u)
    ultimately have "real_of_int (2 ^ 52 + 1) \<le> y / u" by simp
    from round_half_even_ge [OF this]
    have "real_of_int (2 ^ 52 + 1) \<le> real_of_int (round_half_even (y / u))" by linarith
    then have "real_of_int (2 ^ 52 + 1) * u \<le> real_of_int (round_half_even (y / u)) * u"
      using u0 by (simp add: mult_right_mono)
    moreover have "1 < real_of_int (2 ^ 52 + 1) * u" by (simp add: u)
    moreover have "round_double y = real_of_int (round_half_even (y / u)) * u"
      using pos True by (simp add: round_double_def Let_def u_def)
    ultimately show ?thesis by linarith
  next
    case False
    with e0 have "1 \<le> binary_exponent y" by simp
    then have "(2::real) powi 1 \<le> 2 powi (binary_exponent y)"
      by (intro power_int_increasing) auto
    with round_double_pos_lower [OF pos] show ?thesis by simp
  qed
qed

lemma map_err_num_of:
  "\<forall>c \<in> set cs. \<exists>r. c = PNum r \<Longrightarrow>
   \<exists>ds. map_err (\<lambda>confidence. case num_of confidence of Inl e \<Rightarrow> Inl e
                                | Inr c \<Rightarrow> Inr (f c)) cs = Inr ds"
proof (induction cs)
  case Nil
  then show ?case by simp
next
  case (Cons c cs)
  then obtain ds where "map_err (\<lambda>confidence. case num_of confidence of Inl e \<Rightarrow> Inl e
                                | Inr c \<Rightarrow> Inr (f c)) cs = Inr ds" by auto
  moreover from Cons.prems obtain r where "c = PNum r" by auto
  ultimately show ?case by simp
qed

lemma distance_score_f64_returns:
  assumes "well_typed_response response"
  shows "\<exists>d. distance_score_f64 response target = Inr d"
proof -
  from assms obtain d es where r: "response = PDict d" "map_of d ''engines'' = Some (PList es)"
      "list_all well_typed_engine es"
    by (cases response) (auto split: option.splits pyval.splits)
  from map_err_confidence [OF r(3)] obtain cs where
    cs: "map_err (\<lambda>engine. getitem engine ''confidence'') es = Inr cs"
        "\<forall>c \<in> set cs. \<exists>r. c = PNum r" by blast
  from map_err_num_of [OF cs(2), of "\<lambda>c. \<bar>round_double (target - c)\<bar>"] obtain ds where
    "map_err (\<lambda>confidence. case num_of confidence of Inl e \<Rightarrow> Inl e
                                | Inr c \<Rightarrow> Inr \<bar>round_double (target - c)\<bar>) cs = Inr ds" by blast
  with r cs show ?thesis by (simp add: distance_score_f64_def)
qed

lemma engine_score_f64_returns:
  assumes "well_typed_response response" "max_engines cfg \<noteq> 0"
  shows "\<exists>g. engine_score_f64 cfg response = Inr g"
  using assms by (cases response) (auto simp: engine_score_f64_def)

lemma speed_score_f64_above_one:
  assumes "response_time \<le> - (timeout cfg / 2 ^ 52)" and "0 < timeout cfg"
  shows "\<exists>s. speed_score_f64 cfg response_time = Inr s \<and> 1 < s"
proof -
  define q where "q = round_double (response_time / timeout cfg)"
  have "0 < timeout cfg / 2 ^ 52" using assms(2) by simp
  with assms(1) have neg: "response_time < 0" by linarith
  have "response_time / timeout cfg \<le> - (timeout cfg / 2 ^ 52) / timeout cfg"
    by (rule divide_right_mono [OF assms(1)]) (use assms(2) in simp)
  also have "- (timeout cfg / 2 ^ 52) / timeout cfg = - (1 / 2 ^ 52)"
    using assms(2) by simp
  finally have "q \<le> - (1 / 2 ^ 52)" unfolding q_def by (rule round_double_le_neg)
  then have "1 + 1 / 2 ^ 52 \<le> 1 - q" by simp
  from round_double_gt_one [OF this] have "1 < round_double (1 - q)" .
  moreover have "speed_score_f64 cfg response_time = Inr (round_double (1 - q))"
    using neg assms(2) by (simp add: speed_score_f64_def q_def)
  ultimately show ?thesis by simp
qed

text \<open>
  Claim C10 says that every negative response time, with a positive timeout, makes the
  speed term exceed 1.0 and the score 0.0. In binary64 arithmetic this holds when the
  response time is at most \<open>- timeout / 2^52\<close>: the rounded quotient is then at most
  \<open>- 2^-52\<close>, one unit in the last place of 1.0, the rounded difference is above 1, and
  the bounds check on the three terms returns 0.0 (for a well-typed response and
  \<open>max_engines\<close> at least 1, so that nothing raises).
\<close>

theorem negative_response_time_f64:
  assumes "response_time \<le> - (timeout cfg / 2 ^ 52)" and "0 < timeout cfg"
      and "well_typed_response response" and "1 \<le> max_engines cfg"
  shows "\<exists>d s g. speed_score_f64 cfg response_time = Inr s \<and> 1 < s
           \<and> calculate_score_f64 cfg response target response_time
               = Inr ([OutOfBoundsIndividual d s g], 0)"
proof -
  obtain d where d: "distance_score_f64 response target = Inr d"
    using distance_score_f64_returns [OF assms(3)] by blast
  obtain g where g: "engine_score_f64 cfg response = Inr g"
    using engine_score_f64_returns [OF assms(3), of cfg] assms(4) by auto
  obtain s where s: "speed_score_f64 cfg response_time = Inr s" and big: "1 < s"
    using speed_score_f64_above_one [OF assms(1,2)] by blast
  then have "calculate_score_f64 cfg response target response_time
               = Inr ([OutOfBoundsIndividual d s g], 0)"
    using d g by (simp add: calculate_score_f64_def)
  with s big show ?thesis by blast
qed

text \<open>At the boundary, with the timeout 12: the speed term is \<open>1 + 2^-52\<close>.\<close>

lemma boundary_value:
  "calculate_score_f64 default_config sure_output 1 (- (12 / 2 ^ 52))
     = Inr ([OutOfBoundsIndividual 1 (1 + 1 / 2 ^ 52) (6004799503160661 / 2 ^ 54)], 0)"
  by code_simp

theorem negative_response_time_f64_witness:
  "- (12 / 2 ^ 52) \<le> - (timeout default_config / 2 ^ 52) \<and> 0 < timeout default_config
   \<and> well_typed_response sure_output \<and> 1 \<le> max_engines default_config
   \<and> speed_score_f64 default_config (- (12 / 2 ^ 52)) = Inr (1 + 1 / 2 ^ 52)
   \<and> calculate_score_f64 default_config sure_output 1 (- (12 / 2 ^ 52))
        = Inr ([OutOfBoundsIndividual 1 (1 + 1 / 2 ^ 52) (6004799503160661 / 2 ^ 54)], 0)"
proof -
  have r: "- (12 / 2 ^ 52) \<le> - (timeout default_config / 2 ^ 52)"
    by (simp add: default_config_def)
  have t: "0 < timeout default_config" and m: "1 \<le> max_engines default_config"
    by (simp_all add: default_config_def)
  have w: "well_typed_response sure_output" by (simp add: sure_output_def)
  from negative_response_time_f64 [OF r t w m, of 1] boundary_value
  have "speed_score_f64 default_config (- (12 / 2 ^ 52)) = Inr (1 + 1 / 2 ^ 52)"
    by auto
  with r t w m boundary_value show ?thesis by blast
qed

text \<open>
  A negative response time closer to zero is absorbed by the rounding. With the timeout
  12 and the response time \<open>- 3 / 2^68\<close> (about \<open>- 1.0e-20\<close>) the quotient is \<open>- 2^-70\<close>,
  the difference \<open>1 + 2^-70\<close> rounds to 1.0, the bounds check passes and the score is
  the blend, about 0.9333, not 0.0.
\<close>

theorem tiny_negative_response_time_scores:
  "- (3 / 2 ^ 68) < (0::real) \<and> 0 < timeout default_config
   \<and> well_typed_response sure_output \<and> 1 \<le> max_engines default_config
   \<and> speed_score_f64 default_config (- (3 / 2 ^ 68)) = Inr 1
   \<and> calculate_score_f64 default_config sure_output 1 (- (3 / 2 ^ 68))
        = Inr ([], 8406719304424925 / 2 ^ 53)
   \<and> (8406719304424925 / 2 ^ 53 :: real) \<noteq> 0"
  by code_simp

section \<open>The update of one score\<close>

text \<open>
  The two branches of the loop body are one update: the moving average of the old score
  and the round's score, written to the slot of the uid.
\<close>

lemma tensor_index_less: "tensor_index n uid = Inr k \<Longrightarrow> k < n"
  by (auto simp: tensor_index_def split: if_splits)

lemma process_response_round_score:
  "process_response cfg target processed_uids i response scores =
     (if \<not> i < length processed_uids then Inl IndexError
      else case round_score cfg target response of
             Inl e \<Rightarrow> Inl e
           | Inr x \<Rightarrow>
               (case tensor_index (length scores) (processed_uids ! i) of
                  Inl e \<Rightarrow> Inl e
                | Inr k \<Rightarrow> Inr (scores[k := ema (alpha cfg) (scores ! k) x])))"
  by (simp add: process_response_def round_score_def ema_def Let_def
      split: sum.splits prod.splits)

lemma round_score_range:
  "round_score cfg target response = Inr x \<Longrightarrow> 0 \<le> x \<and> x \<le> 1"
  using calculate_score_range
  by (fastforce simp: round_score_def split: if_splits sum.splits prod.splits)

section \<open>The invariant of the score state\<close>

lemma ema_range:
  assumes "0 \<le> a" "a \<le> 1" "0 \<le> x" "x \<le> 1" "0 \<le> y" "y \<le> 1"
  shows "0 \<le> ema a x y \<and> ema a x y \<le> 1"
proof -
  have "a * x \<le> a * 1" using assms by (intro mult_left_mono) auto
  moreover have "(1 - a) * y \<le> (1 - a) * 1" using assms by (intro mult_left_mono) auto
  moreover have "0 \<le> a * x" "0 \<le> (1 - a) * y" using assms by auto
  ultimately show ?thesis by (simp add: ema_def)
qed

lemma process_response_unit:
  assumes "0 \<le> alpha cfg" "alpha cfg \<le> 1" "unit_scores scores"
      and "process_response cfg target processed_uids i response scores = Inr scores'"
  shows "unit_scores scores'"
proof -
  from assms(4) obtain x k where x: "round_score cfg target response = Inr x"
    and k: "tensor_index (length scores) (processed_uids ! i) = Inr k"
    and s: "scores' = scores[k := ema (alpha cfg) (scores ! k) x]"
    by (auto simp: process_response_round_score split: if_splits sum.splits)
  have kl: "k < length scores" using tensor_index_less [OF k] .
  then have "0 \<le> scores ! k \<and> scores ! k \<le> 1"
    using assms(3) by (simp add: unit_scores_def list_all_length)
  with ema_range [OF assms(1,2) _ _ _ _, of "scores ! k" x] round_score_range [OF x]
  have "0 \<le> ema (alpha cfg) (scores ! k) x \<and> ema (alpha cfg) (scores ! k) x \<le> 1" by simp
  with assms(3) show ?thesis
    unfolding s unit_scores_def list_all_iff
    using set_update_subset_insert [of scores k] by blast
qed

lemma process_loop_unit:
  assumes "0 \<le> alpha cfg" "alpha cfg \<le> 1"
  shows "unit_scores scores \<Longrightarrow>
         unit_scores (fst (process_loop cfg target processed_uids i responses scores))"
proof (induction responses arbitrary: i scores)
  case Nil
  then show ?case by simp
next
  case (Cons response responses)
  show ?case
  proof (cases "process_response cfg target processed_uids i response scores")
    case (Inl e)
    with Cons.prems show ?thesis by simp
  next
    case (Inr scores')
    then have "unit_scores scores'"
      using process_response_unit [OF assms Cons.prems] by simp
    from Cons.IH [OF this] Inr show ?thesis by simp
  qed
qed

lemma process_responses_unit:
  assumes "0 \<le> alpha cfg" "alpha cfg \<le> 1" "unit_scores scores"
  shows "unit_scores (fst (process_responses cfg scores processed_uids query responses))"
  using assms process_loop_unit [OF assms(1,2,3)]
  by (simp add: process_responses_def split: sum.splits)

lemma run_rounds_unit:
  assumes "0 \<le> alpha cfg" "alpha cfg \<le> 1"
  shows "unit_scores scores \<Longrightarrow> unit_scores (run_rounds cfg rounds scores)"
proof (induction rounds arbitrary: scores)
  case Nil
  then show ?case by simp
next
  case (Cons r rounds)
  obtain processed_uids query responses where r: "r = (processed_uids, query, responses)"
    by (cases r) auto
  show ?case
    unfolding r using Cons.IH [OF process_responses_unit [OF assms Cons.prems]] by simp
qed

lemma process_response_length:
  "process_response cfg target processed_uids i response scores = Inr scores' \<Longrightarrow>
   length scores' = length scores"
  by (auto simp: process_response_round_score split: if_splits sum.splits)

lemma process_loop_length:
  "length (fst (process_loop cfg target processed_uids i responses scores)) = length scores"
proof (induction responses arbitrary: i scores)
  case Nil
  then show ?case by simp
next
  case (Cons response responses)
  then show ?case
    by (cases "process_response cfg target processed_uids i response scores")
       (simp_all add: process_response_length)
qed

lemma process_responses_length:
  "length (fst (process_responses cfg scores processed_uids query responses)) = length scores"
  by (simp add: process_responses_def process_loop_length split: sum.splits)

lemma run_rounds_length: "length (run_rounds cfg rounds scores) = length scores"
proof (induction rounds arbitrary: scores)
  case Nil
  then show ?case by simp
next
  case (Cons r rounds)
  then show ?case by (cases r) (simp add: process_responses_length)
qed

text \<open>
  Claim C6: with alpha in [0, 1], after any sequence of rounds from the zero-initialised
  state every entry of the score state lies in [0, 1] (and the state keeps its size).
  Neither well-formed rounds nor one update per identity are needed: a round that stops
  with an exception leaves the updates it made, and they are in range as well.
\<close>

theorem scores_stay_in_unit_interval:
  assumes "0 \<le> alpha cfg" and "alpha cfg \<le> 1"
  shows "length (run_rounds cfg rounds (initial_scores n)) = n \<and>
         (\<forall>x \<in> set (run_rounds cfg rounds (initial_scores n)). 0 \<le> x \<and> x \<le> 1)"
proof -
  have "unit_scores (initial_scores n)"
    by (simp add: unit_scores_def initial_scores_def list_all_iff)
  from run_rounds_unit [OF assms this, of rounds] show ?thesis
    by (simp add: run_rounds_length initial_scores_def unit_scores_def list_all_iff)
qed

lemma two_rounds_value:
  "run_rounds default_config two_rounds (initial_scores 2) = [0.083, 0.083]"
  by (simp add: two_rounds_def initial_scores_def process_responses_def target_of_def
      injection_query_def process_response_def tensor_index_def calculate_score_def distance_score_def
      speed_score_def engine_score_def default_config_def scenario_output_def
      scenario_synapse_def empty_synapse_def dict_keys_def numeral_2_eq_2)

theorem scores_stay_in_unit_interval_witness:
  "0 \<le> alpha default_config \<and> alpha default_config \<le> 1
   \<and> run_rounds default_config two_rounds (initial_scores 2) = [0.083, 0.083]
   \<and> length (run_rounds default_config two_rounds (initial_scores 2)) = 2
   \<and> 0 \<le> run_rounds default_config two_rounds (initial_scores 2) ! 1
   \<and> run_rounds default_config two_rounds (initial_scores 2) ! 1 \<le> 1"
proof -
  have a: "0 \<le> alpha default_config" and b: "alpha default_config \<le> 1"
    by (simp_all add: default_config_def)
  note inv = scores_stay_in_unit_interval [OF a b, of two_rounds 2]
  from inv have l: "length (run_rounds default_config two_rounds (initial_scores 2)) = 2"
    by blast
  then have "run_rounds default_config two_rounds (initial_scores 2) ! 1
               \<in> set (run_rounds default_config two_rounds (initial_scores 2))"
    by simp
  with inv have "0 \<le> run_rounds default_config two_rounds (initial_scores 2) ! 1
      \<and> run_rounds default_config two_rounds (initial_scores 2) ! 1 \<le> 1"
    by blast
  with a b l two_rounds_value show ?thesis by blast
qed

section \<open>The extreme smoothing factors\<close>

text \<open>
  Claim C8: with alpha = 1 a round leaves every stored score as it was, whatever the
  responses are (empty or not, well-formed or not); with alpha = 0 the loop body
  replaces the stored score by the round's score: 0.0 for an empty response, the result
  of \<^verbatim>\<open>calculate_score\<close> otherwise.
\<close>

theorem ema_alpha_extremes:
  "(alpha cfg = 1 \<longrightarrow>
      fst (process_responses cfg scores processed_uids query responses) = scores)
   \<and> (alpha cfg = 0 \<longrightarrow> i < length processed_uids \<longrightarrow>
        tensor_index (length scores) (processed_uids ! i) = Inr k \<longrightarrow>
          (\<not> truthy (synapse_output response) \<longrightarrow>
             process_response cfg target processed_uids i response scores
               = Inr (scores[k := 0]))
          \<and> (\<forall>events score.
                truthy (synapse_output response) \<longrightarrow>
                calculate_score cfg (synapse_output response) target (process_time response)
                  = Inr (events, score) \<longrightarrow>
                process_response cfg target processed_uids i response scores
                  = Inr (scores[k := score])))"
proof (intro conjI impI)
  assume a: "alpha cfg = 1"
  have step: "scores' = scores"
    if "process_response cfg target processed_uids i response scores = Inr scores'"
    for target i response scores scores'
    using that a
    by (auto simp: process_response_round_score ema_def split: if_splits sum.splits)
  have loop: "fst (process_loop cfg target processed_uids i responses scores) = scores"
    for target i
  proof (induction responses arbitrary: i)
    case Nil
    then show ?case by simp
  next
    case (Cons response responses)
    show ?case
    proof (cases "process_response cfg target processed_uids i response scores")
      case (Inl e)
      then show ?thesis by simp
    next
      case (Inr scores')
      with step [OF Inr] Cons.IH show ?thesis by simp
    qed
  qed
  show "fst (process_responses cfg scores processed_uids query responses) = scores"
    by (simp add: process_responses_def loop split: sum.splits)
next
  assume "alpha cfg = 0" "i < length processed_uids"
    "tensor_index (length scores) (processed_uids ! i) = Inr k"
    "\<not> truthy (synapse_output response)"
  then show "process_response cfg target processed_uids i response scores
               = Inr (scores[k := 0])"
    by (simp add: process_response_def Let_def)
next
  assume "alpha cfg = 0" "i < length processed_uids"
    "tensor_index (length scores) (processed_uids ! i) = Inr k"
  then show "\<forall>events score.
                truthy (synapse_output response) \<longrightarrow>
                calculate_score cfg (synapse_output response) target (process_time response)
                  = Inr (events, score) \<longrightarrow>
                process_response cfg target processed_uids i response scores
                  = Inr (scores[k := score])"
    by (simp add: process_response_def Let_def)
qed

theorem ema_alpha_extremes_witness:
  "fst (process_responses (default_config\<lparr>alpha := 1\<rparr>) [0.5, 0.25] [0, 1] injection_query
          [scenario_synapse, empty_synapse]) = [0.5, 0.25]
   \<and> process_response (default_config\<lparr>alpha := 0\<rparr>) 1 [0, 1] 0 scenario_synapse [0.5, 0.25]
        = Inr [0.83, 0.25]
   \<and> process_response (default_config\<lparr>alpha := 0\<rparr>) 1 [0, 1] 1 empty_synapse [0.5, 0.25]
        = Inr [0.5, 0]"
proof -
  have c: "calculate_score (default_config\<lparr>alpha := 0\<rparr>) (synapse_output scenario_synapse) 1
             (process_time scenario_synapse) = Inr ([], 0.83)"
    by (simp add: calculate_score_def distance_score_def speed_score_def engine_score_def
        default_config_def scenario_output_def scenario_synapse_def dict_keys_def)
  have t: "truthy (synapse_output scenario_synapse)"
    by (simp add: scenario_synapse_def scenario_output_def)
  have e: "\<not> truthy (synapse_output empty_synapse)"
    by (simp add: empty_synapse_def)
  have k0: "tensor_index (length [0.5, 0.25 :: real]) ([0, 1 :: int] ! 0) = Inr 0"
    and k1: "tensor_index (length [0.5, 0.25 :: real]) ([0, 1 :: int] ! 1) = Inr 1"
    by (simp_all add: tensor_index_def)
  have a0: "alpha (default_config\<lparr>alpha := 0\<rparr>) = 0" and a1: "alpha (default_config\<lparr>alpha := 1\<rparr>) = 1"
    by simp_all
  have i0: "0 < length [0, 1 :: int]" and i1: "1 < length [0, 1 :: int]" by simp_all
  have "fst (process_responses (default_config\<lparr>alpha := 1\<rparr>) [0.5, 0.25] [0, 1] injection_query
          [scenario_synapse, empty_synapse]) = [0.5, 0.25]"
    using ema_alpha_extremes [of "default_config\<lparr>alpha := 1\<rparr>", THEN conjunct1, rule_format, OF a1] .
  moreover have "process_response (default_config\<lparr>alpha := 0\<rparr>) 1 [0, 1] 0 scenario_synapse
                   [0.5, 0.25] = Inr [0.83, 0.25]"
    using ema_alpha_extremes [of "default_config\<lparr>alpha := 0\<rparr>", THEN conjunct2, rule_format,
        OF a0 i0 k0, THEN conjunct2, rule_format, OF t c] by simp
  moreover have "process_response (default_config\<lparr>alpha := 0\<rparr>) 1 [0, 1] 1 empty_synapse
                   [0.5, 0.25] = Inr [0.5, 0]"
    using ema_alpha_extremes [of "default_config\<lparr>alpha := 0\<rparr>", THEN conjunct2, rule_format,
        OF a0 i1 k1, THEN conjunct1, rule_format, OF e] by simp
  ultimately show ?thesis by simp
qed

section \<open>The loop as a list of updates\<close>

lemma process_loop_update_all:
  "i + length responses \<le> length processed_uids \<Longrightarrow>
   process_loop cfg target processed_uids i responses scores
     = update_all cfg target (zip (drop i processed_uids) responses) scores"
proof (induction responses arbitrary: i scores)
  case Nil
  then show ?case by simp
next
  case (Cons response responses)
  then have i: "i < length processed_uids" by simp
  then have d: "drop i processed_uids = processed_uids ! i # drop (Suc i) processed_uids"
    by (simp add: Cons_nth_drop_Suc)
  from Cons.prems have "Suc i + length responses \<le> length processed_uids" by simp
  note IH = Cons.IH [OF this]
  show ?case
    using i by (simp add: d process_response_round_score IH split: sum.splits)
qed

lemma tensor_index_nonneg:
  "0 \<le> uid \<Longrightarrow> tensor_index n uid = Inr k \<Longrightarrow> k = nat uid \<and> uid < int n"
  by (auto simp: tensor_index_def split: if_splits)

lemma update_all_succeeds_iff:
  "snd (update_all cfg target ps scores) = None \<longleftrightarrow>
     (\<forall>p \<in> set ps. (\<exists>x. round_score cfg target (snd p) = Inr x)
                   \<and> (\<exists>k. tensor_index (length scores) (fst p) = Inr k))"
proof (induction ps arbitrary: scores)
  case Nil
  then show ?case by simp
next
  case (Cons p ps)
  obtain uid response where p: "p = (uid, response)" by (cases p) auto
  show ?case
  proof (cases "round_score cfg target response")
    case (Inl e)
    then show ?thesis by (simp add: p)
  next
    case x: (Inr x)
    show ?thesis
    proof (cases "tensor_index (length scores) uid")
      case (Inl e)
      then show ?thesis by (simp add: p x)
    next
      case (Inr k)
      with x Cons.IH [of "scores[k := ema (alpha cfg) (scores ! k) x]"]
      show ?thesis by (simp add: p)
    qed
  qed
qed

lemma update_all_closed_form:
  assumes "update_all cfg target ps scores = (scores', None)"
      and "distinct (map fst ps)" and "\<forall>p \<in> set ps. 0 \<le> fst p"
  shows "length scores' = length scores \<and>
         (\<forall>k < length scores.
            scores' ! k = (case map_of ps (int k) of
                             None \<Rightarrow> scores ! k
                           | Some response \<Rightarrow>
                               ema (alpha cfg) (scores ! k)
                                 (projr (round_score cfg target response))))"
  using assms
proof (induction ps arbitrary: scores)
  case Nil
  then show ?case by simp
next
  case (Cons p ps)
  obtain uid response where p: "p = (uid, response)" by (cases p) auto
  from Cons.prems(1) obtain x k0 where x: "round_score cfg target response = Inr x"
    and k0: "tensor_index (length scores) uid = Inr k0"
    and rest: "update_all cfg target ps (scores[k0 := ema (alpha cfg) (scores ! k0) x])
                 = (scores', None)"
    by (auto simp: p split: sum.splits)
  from Cons.prems(3) have u0: "0 \<le> uid" by (simp add: p)
  from tensor_index_nonneg [OF u0 k0] u0 have uid: "uid = int k0" by simp
  have k0l: "k0 < length scores" using tensor_index_less [OF k0] .
  from Cons.prems(2) have dist: "distinct (map fst ps)" and fresh: "uid \<notin> fst ` set ps"
    by (auto simp: p)
  from Cons.prems(3) have nonneg: "\<forall>p \<in> set ps. 0 \<le> fst p" by simp
  note IH = Cons.IH [OF rest dist nonneg]
  from fresh have none: "map_of ps (int k0) = None"
    by (simp add: uid map_of_eq_None_iff)
  show ?case
  proof (intro conjI allI impI)
    show "length scores' = length scores" using IH by simp
  next
    fix k assume kl: "k < length scores"
    show "scores' ! k = (case map_of (p # ps) (int k) of
                             None \<Rightarrow> scores ! k
                           | Some response \<Rightarrow>
                               ema (alpha cfg) (scores ! k)
                                 (projr (round_score cfg target response)))"
    proof (cases "k = k0")
      case True
      with IH kl none k0l x show ?thesis by (simp add: p uid)
    next
      case False
      then have "scores[k0 := ema (alpha cfg) (scores ! k0) x] ! k = scores ! k" by simp
      with False IH kl show ?thesis by (simp add: p uid split: option.splits)
    qed
  qed
qed

lemma update_all_permutation:
  assumes ok: "update_all cfg target ps scores = (scores', None)"
      and dist: "distinct (map fst ps)" and nonneg: "\<forall>p \<in> set ps. 0 \<le> fst p"
      and perm: "mset ps' = mset ps"
  shows "update_all cfg target ps' scores = (scores', None)"
proof -
  from perm have sets: "set ps' = set ps" by (rule mset_eq_setD)
  from perm have "mset (map fst ps') = mset (map fst ps)" by simp
  with dist have dist': "distinct (map fst ps')"
    by (metis mset_eq_imp_distinct_iff)
  from nonneg sets have nonneg': "\<forall>p \<in> set ps'. 0 \<le> fst p" by simp
  from ok have "snd (update_all cfg target ps scores) = None" by simp
  then have "snd (update_all cfg target ps' scores) = None"
    by (simp add: update_all_succeeds_iff sets)
  then obtain scores'' where ok': "update_all cfg target ps' scores = (scores'', None)"
    by (cases "update_all cfg target ps' scores") auto
  have maps: "map_of ps' = map_of ps"
    using dist dist' sets by (simp add: map_of_inject_set)
  note cf = update_all_closed_form [OF ok dist nonneg]
  note cf' = update_all_closed_form [OF ok' dist' nonneg']
  have "scores'' = scores'"
  proof (rule nth_equalityI)
    show "length scores'' = length scores'" using cf cf' by simp
  next
    fix k assume "k < length scores''"
    then have "k < length scores" using cf' by simp
    with cf cf' show "scores'' ! k = scores' ! k" by (simp add: maps)
  qed
  with ok' show ?thesis by simp
qed

lemma process_responses_update_all:
  assumes "length processed_uids = length responses"
  shows "process_responses cfg scores processed_uids query responses =
           (case target_of query of
              Inl e \<Rightarrow> (scores, Some e)
            | Inr target \<Rightarrow> update_all cfg target (zip processed_uids responses) scores)"
  using assms process_loop_update_all [of 0 responses processed_uids cfg _ scores]
  by (simp add: process_responses_def split: sum.splits)

section \<open>The scores after a round\<close>

lemma process_responses_closed_form:
  assumes "distinct processed_uids" and "\<forall>uid \<in> set processed_uids. 0 \<le> uid"
      and "length processed_uids = length responses"
      and "process_responses cfg scores processed_uids query responses = (scores', None)"
  shows "\<exists>target. target_of query = Inr target
           \<and> (\<forall>i < length responses. \<exists>x.
                 round_score cfg target (responses ! i) = Inr x
                 \<and> nat (processed_uids ! i) < length scores
                 \<and> scores' ! nat (processed_uids ! i)
                     = ema (alpha cfg) (scores ! nat (processed_uids ! i)) x)
           \<and> length scores' = length scores
           \<and> (\<forall>k < length scores. int k \<notin> set processed_uids \<longrightarrow> scores' ! k = scores ! k)"
proof -
  let ?ps = "zip processed_uids responses"
  from assms(4) obtain target where t: "target_of query = Inr target"
    by (cases "target_of query") (auto simp: process_responses_def)
  with assms(4) have ok: "update_all cfg target ?ps scores = (scores', None)"
    by (simp add: process_responses_update_all [OF assms(3)])
  have dist: "distinct (map fst ?ps)" using assms(1,3) by simp
  have nonneg: "\<forall>p \<in> set ?ps. 0 \<le> fst p"
    using assms(2) by (auto dest: set_zip_leftD)
  note cf = update_all_closed_form [OF ok dist nonneg]
  from ok have succ: "snd (update_all cfg target ?ps scores) = None" by simp
  have "\<exists>x. round_score cfg target (responses ! i) = Inr x
                \<and> nat (processed_uids ! i) < length scores
                \<and> scores' ! nat (processed_uids ! i)
                    = ema (alpha cfg) (scores ! nat (processed_uids ! i)) x"
    if i: "i < length responses" for i
  proof -
    from i assms(3) have mem: "(processed_uids ! i, responses ! i) \<in> set ?ps"
      by (auto simp: set_zip)
    with succ obtain x k where x: "round_score cfg target (responses ! i) = Inr x"
      and k: "tensor_index (length scores) (processed_uids ! i) = Inr k"
      unfolding update_all_succeeds_iff by fastforce
    from nonneg mem have u0: "0 \<le> processed_uids ! i" by fastforce
    from tensor_index_nonneg [OF u0 k] have kn: "k = nat (processed_uids ! i)" by simp
    have kl: "k < length scores" using tensor_index_less [OF k] .
    have "map_of ?ps (processed_uids ! i) = Some (responses ! i)"
      using assms(1,3) i by (simp add: map_of_zip_nth)
    moreover have "int k = processed_uids ! i" using kn u0 by simp
    ultimately have "scores' ! k = ema (alpha cfg) (scores ! k) x"
      using cf kl x by simp
    with x kn kl show ?thesis by auto
  qed
  moreover have "scores' ! k = scores ! k"
    if "k < length scores" "int k \<notin> set processed_uids" for k
  proof -
    from that(2) assms(3) have "map_of ?ps (int k) = None"
      by (simp add: map_of_zip_is_None)
    with cf that(1) show ?thesis by simp
  qed
  moreover have "length scores' = length scores" using cf by simp
  ultimately show ?thesis using t by blast
qed

lemma round_score_cases:
  assumes "round_score cfg target response = Inr x"
  shows "if \<not> truthy (synapse_output response) then x = 0
         else \<exists>events. calculate_score cfg (synapse_output response) target
                          (process_time response) = Inr (events, x)"
  using assms by (auto simp: round_score_def split: if_splits sum.splits prod.splits)

text \<open>
  Claim C5: take a round of \<^verbatim>\<open>process_responses\<close> that completes without an exception,
  with one uid for each response, the uids pairwise distinct indices of the roster (one
  update per identity). Then for every identity processed in the round, the score in
  its slot after the round is \<open>alpha * old_score + (1 - alpha) * round_score\<close>, where
  \<open>old_score\<close> is the score in that slot before the round and \<open>round_score\<close> is 0.0 when
  the identity's own response is empty, and the result of \<^verbatim>\<open>calculate_score\<close> on that
  response, with the target of the round's query, otherwise. The score state keeps its
  size, and the slots of the identities that the round does not process are unchanged.
\<close>

theorem round_writes_ema:
  assumes "distinct processed_uids" and "\<forall>uid \<in> set processed_uids. 0 \<le> uid"
      and "length processed_uids = length responses"
      and "process_responses cfg scores processed_uids query responses = (scores', None)"
  shows "\<exists>target. target_of query = Inr target
           \<and> (\<forall>i < length responses. \<exists>round_score.
                 (if \<not> truthy (synapse_output (responses ! i)) then round_score = 0
                  else \<exists>events.
                         calculate_score cfg (synapse_output (responses ! i)) target
                           (process_time (responses ! i)) = Inr (events, round_score))
                 \<and> nat (processed_uids ! i) < length scores
                 \<and> scores' ! nat (processed_uids ! i)
                     = alpha cfg * scores ! nat (processed_uids ! i)
                       + (1 - alpha cfg) * round_score)
           \<and> length scores' = length scores
           \<and> (\<forall>k < length scores. int k \<notin> set processed_uids \<longrightarrow> scores' ! k = scores ! k)"
proof -
  from process_responses_closed_form [OF assms] obtain target where
    t: "target_of query = Inr target" and
    others: "length scores' = length scores"
      "\<forall>k < length scores. int k \<notin> set processed_uids \<longrightarrow> scores' ! k = scores ! k" and
    each: "\<forall>i < length responses. \<exists>x.
                 round_score cfg target (responses ! i) = Inr x
                 \<and> nat (processed_uids ! i) < length scores
                 \<and> scores' ! nat (processed_uids ! i)
                     = ema (alpha cfg) (scores ! nat (processed_uids ! i)) x"
    by blast
  have "\<exists>y. (if \<not> truthy (synapse_output (responses ! i)) then y = 0
                  else \<exists>events.
                         calculate_score cfg (synapse_output (responses ! i)) target
                           (process_time (responses ! i)) = Inr (events, y))
                 \<and> nat (processed_uids ! i) < length scores
                 \<and> scores' ! nat (processed_uids ! i)
                     = alpha cfg * scores ! nat (processed_uids ! i)
                       + (1 - alpha cfg) * y"
    if "i < length responses" for i
  proof -
    from each that obtain x where x: "round_score cfg target (responses ! i) = Inr x"
      and r: "nat (processed_uids ! i) < length scores"
         "scores' ! nat (processed_uids ! i)
            = ema (alpha cfg) (scores ! nat (processed_uids ! i)) x"
      by blast
    from round_score_cases [OF x] r show ?thesis
      unfolding ema_def by blast
  qed
  with t others show ?thesis by blast
qed

text \<open>
  A round of two on old scores of 0.5 with alpha 0.9: the scenario's response, scored
  0.83, yields 0.533, and the empty response yields 0.45.
\<close>

lemma scenario_round_value:
  "process_responses default_config [0.5, 0.5] [0, 1] injection_query
     [scenario_synapse, empty_synapse] = ([0.533, 0.45], None)"
  by (simp add: process_responses_def target_of_def injection_query_def
      process_response_def tensor_index_def calculate_score_def distance_score_def
      speed_score_def engine_score_def default_config_def scenario_output_def
      scenario_synapse_def empty_synapse_def dict_keys_def)

theorem round_writes_ema_witness:
  "process_responses default_config [0.5, 0.5] [0, 1] injection_query
     [scenario_synapse, empty_synapse] = ([0.533, 0.45], None)
   \<and> target_of injection_query = Inr 1
   \<and> \<not> truthy (synapse_output empty_synapse)
   \<and> [0.533, 0.45 :: real] ! 1 = alpha default_config * [0.5, 0.5] ! 1 + (1 - alpha default_config) * 0
   \<and> calculate_score default_config (synapse_output scenario_synapse) 1
        (process_time scenario_synapse) = Inr ([], 0.83)
   \<and> [0.533, 0.45 :: real] ! 0 = alpha default_config * [0.5, 0.5] ! 0 + (1 - alpha default_config) * 0.83"
proof -
  have d: "distinct [0, 1 :: int]" and n: "\<forall>uid \<in> set [0, 1 :: int]. 0 \<le> uid"
    by simp_all
  have l: "length [0, 1 :: int] = length [scenario_synapse, empty_synapse]" by simp
  have tq: "target_of injection_query = Inr 1"
    by (simp add: target_of_def injection_query_def)
  have e: "\<not> truthy (synapse_output empty_synapse)"
    by (simp add: empty_synapse_def)
  have t: "truthy (synapse_output scenario_synapse)"
    by (simp add: scenario_synapse_def scenario_output_def)
  have c: "calculate_score default_config (synapse_output scenario_synapse) 1
             (process_time scenario_synapse) = Inr ([], 0.83)"
    by (simp add: calculate_score_def distance_score_def speed_score_def engine_score_def
        default_config_def scenario_output_def scenario_synapse_def dict_keys_def)
  from round_writes_ema [OF d n l scenario_round_value] obtain target where
    tt: "target_of injection_query = Inr target" and
    each: "\<forall>i < length [scenario_synapse, empty_synapse]. \<exists>y.
      (if \<not> truthy (synapse_output ([scenario_synapse, empty_synapse] ! i)) then y = 0
       else \<exists>events. calculate_score default_config
              (synapse_output ([scenario_synapse, empty_synapse] ! i)) target
              (process_time ([scenario_synapse, empty_synapse] ! i)) = Inr (events, y))
      \<and> nat ([0, 1] ! i) < length [0.5, 0.5 :: real]
      \<and> [0.533, 0.45 :: real] ! nat ([0, 1] ! i)
           = alpha default_config * [0.5, 0.5] ! nat ([0, 1] ! i)
             + (1 - alpha default_config) * y"
    by blast
  from tt tq have target: "target = 1" by simp
  have i1: "(1::nat) < length [scenario_synapse, empty_synapse]" by simp
  from each i1 obtain y where
    y: "if \<not> truthy (synapse_output ([scenario_synapse, empty_synapse] ! 1)) then y = 0
        else \<exists>events. calculate_score default_config
              (synapse_output ([scenario_synapse, empty_synapse] ! 1)) target
              (process_time ([scenario_synapse, empty_synapse] ! 1)) = Inr (events, y)"
    and eq: "[0.533, 0.45 :: real] ! nat ([0, 1] ! 1)
           = alpha default_config * [0.5, 0.5] ! nat ([0, 1] ! 1)
             + (1 - alpha default_config) * y"
    by blast
  from y e have "y = 0" by simp
  with eq have one: "[0.533, 0.45 :: real] ! 1
      = alpha default_config * [0.5, 0.5] ! 1 + (1 - alpha default_config) * 0"
    by simp
  have i0: "(0::nat) < length [scenario_synapse, empty_synapse]" by simp
  from each i0 obtain z where
    z: "if \<not> truthy (synapse_output ([scenario_synapse, empty_synapse] ! 0)) then z = 0
        else \<exists>events. calculate_score default_config
              (synapse_output ([scenario_synapse, empty_synapse] ! 0)) target
              (process_time ([scenario_synapse, empty_synapse] ! 0)) = Inr (events, z)"
    and eq0: "[0.533, 0.45 :: real] ! nat ([0, 1] ! 0)
           = alpha default_config * [0.5, 0.5] ! nat ([0, 1] ! 0)
             + (1 - alpha default_config) * z"
    by blast
  from z t c target have "z = 0.83" by simp
  with eq0 have zero: "[0.533, 0.45 :: real] ! 0
      = alpha default_config * [0.5, 0.5] ! 0 + (1 - alpha default_config) * 0.83"
    by simp
  from scenario_round_value tq e one c zero show ?thesis by blast
qed

section \<open>Updates of distinct identities commute\<close>

text \<open>
  Claim C9: take a round whose uids are pairwise distinct indices of the roster (not
  negative), one for each response, that \<^verbatim>\<open>process_responses\<close> completes without an
  exception. Then every permutation of the responses together with their uids completes
  with the same final score state. Moreover the final score of each processed identity
  is the moving average of its own old score and the score of its own response, and the
  slots of the other identities are unchanged: no update reads another identity's slot.
\<close>

theorem distinct_updates_commute:
  assumes "distinct processed_uids" and "\<forall>uid \<in> set processed_uids. 0 \<le> uid"
      and "length processed_uids = length responses"
      and "length processed_uids' = length responses'"
      and "mset (zip processed_uids' responses') = mset (zip processed_uids responses)"
      and "process_responses cfg scores processed_uids query responses = (scores', None)"
  shows "process_responses cfg scores processed_uids' query responses' = (scores', None)
         \<and> (\<exists>target. target_of query = Inr target
               \<and> (\<forall>i < length responses. \<exists>x.
                     round_score cfg target (responses ! i) = Inr x
                     \<and> scores' ! nat (processed_uids ! i)
                         = alpha cfg * scores ! nat (processed_uids ! i) + (1 - alpha cfg) * x))
         \<and> (\<forall>k < length scores. int k \<notin> set processed_uids \<longrightarrow> scores' ! k = scores ! k)"
proof -
  let ?ps = "zip processed_uids responses"
  from assms(6) obtain target where t: "target_of query = Inr target"
    by (cases "target_of query") (auto simp: process_responses_def)
  with assms(6) have ok: "update_all cfg target ?ps scores = (scores', None)"
    by (simp add: process_responses_update_all [OF assms(3)])
  have dist: "distinct (map fst ?ps)" using assms(1,3) by simp
  have nonneg: "\<forall>p \<in> set ?ps. 0 \<le> fst p"
    using assms(2) by (auto dest: set_zip_leftD)
  from update_all_permutation [OF ok dist nonneg assms(5)] t
  have perm: "process_responses cfg scores processed_uids' query responses' = (scores', None)"
    by (simp add: process_responses_update_all [OF assms(4)])
  note cf = update_all_closed_form [OF ok dist nonneg]
  from ok have succ: "snd (update_all cfg target ?ps scores) = None" by simp
  have each: "\<exists>x. round_score cfg target (responses ! i) = Inr x
                \<and> scores' ! nat (processed_uids ! i)
                    = alpha cfg * scores ! nat (processed_uids ! i) + (1 - alpha cfg) * x"
    if i: "i < length responses" for i
  proof -
    from i assms(3) have mem: "(processed_uids ! i, responses ! i) \<in> set ?ps"
      by (auto simp: set_zip)
    with succ obtain x k where x: "round_score cfg target (responses ! i) = Inr x"
      and k: "tensor_index (length scores) (processed_uids ! i) = Inr k"
      unfolding update_all_succeeds_iff by fastforce
    from nonneg mem have u0: "0 \<le> processed_uids ! i" by fastforce
    from tensor_index_nonneg [OF u0 k] have kn: "k = nat (processed_uids ! i)" by simp
    have kl: "k < length scores" using tensor_index_less [OF k] .
    have "map_of ?ps (processed_uids ! i) = Some (responses ! i)"
      using assms(1,3) i by (simp add: map_of_zip_nth)
    moreover have "int k = processed_uids ! i" using kn u0 by simp
    ultimately have "scores' ! k = ema (alpha cfg) (scores ! k) x"
      using cf kl x by simp
    with x kn show ?thesis by (auto simp: ema_def)
  qed
  have others: "scores' ! k = scores ! k"
    if "k < length scores" "int k \<notin> set processed_uids" for k
  proof -
    from that(2) assms(3) have "map_of ?ps (int k) = None"
      by (simp add: map_of_zip_is_None)
    with cf that(1) show ?thesis by simp
  qed
  from perm t each others show ?thesis by blast
qed

text \<open>Two identities, processed in both orders.\<close>

theorem distinct_updates_commute_witness:
  "process_responses default_config [0.5, 0.5] [0, 1] injection_query
       [scenario_synapse, empty_synapse] = ([0.533, 0.45], None)
   \<and> process_responses default_config [0.5, 0.5] [1, 0] injection_query
       [empty_synapse, scenario_synapse] = ([0.533, 0.45], None)"
proof -
  have d: "distinct [0, 1 :: int]" and n: "\<forall>uid \<in> set [0, 1 :: int]. 0 \<le> uid"
    by simp_all
  have l: "length [0, 1 :: int] = length [scenario_synapse, empty_synapse]"
    and l': "length [1, 0 :: int] = length [empty_synapse, scenario_synapse]"
    by simp_all
  have m: "mset (zip [1, 0 :: int] [empty_synapse, scenario_synapse])
             = mset (zip [0, 1] [scenario_synapse, empty_synapse])"
    by simp
  have v: "process_responses default_config [0.5, 0.5] [0, 1] injection_query
             [scenario_synapse, empty_synapse] = ([0.533, 0.45], None)"
    by (simp add: process_responses_def target_of_def injection_query_def
        process_response_def tensor_index_def calculate_score_def distance_score_def
        speed_score_def engine_score_def default_config_def scenario_output_def
        scenario_synapse_def empty_synapse_def dict_keys_def)
  from distinct_updates_commute [OF d n l l' m v] v show ?thesis by blast
qed

end
